theory Spec2Isabelle
  imports Main
begin

section \<open>The candidate collector of \<^verbatim>\<open>src/retrieval/collector.py\<close>\<close>

text \<open>
  \<^verbatim>\<open>RuleCollector.collect\<close> merges the candidate tables of a list of retrieval rules
  into one table and optionally compresses it into one item list per target customer.
  The pandas tables are modelled as lists of rows (row order is the order of the frame),
  a cell that pandas shows as NaN/None is \<open>None\<close>, and a join compares cells by equality,
  so that a null key matches a null key exactly as \<^verbatim>\<open>DataFrame.merge\<close> does.

  What the model leaves out: column names and dtypes (every table has the columns the
  code reads; the \<^verbatim>\<open>item_id\<close> argument only names the item column), the progress bar,
  and the numeric nature of scores, which the collector carries and never computes with.
  Customer and item identifiers are natural numbers, cohort attribute values are strings;
  the target customers are non-null. A call's \<^verbatim>\<open>retrieve()\<close> returns a fixed table.

  The errors of the model are the ones the source's own control flow decides: the two
  \<^verbatim>\<open>TypeError\<close>s of the checks, the failure of \<^verbatim>\<open>None.groupby\<close> when no rule ran, and
  the merge of line 83 on an empty list of cohort columns. What pandas does with a table
  that lacks a column is not modelled.
\<close>

subsection \<open>Tables\<close>

text \<open>The columns every retrieved table has: the item, its score and the label of column \<^verbatim>\<open>method\<close>.\<close>

record item_row =
  item_id :: "nat option"
  score :: "int option"
  method_label :: "string option"

text \<open>A row of a personal table and of every normalized table: the same plus the customer.\<close>

record row = item_row +
  customer_id :: "nat option"

text \<open>A row of a user-group table: the same three columns plus the cohort columns, read by name.\<close>

record group_row = item_row +
  cohort :: "string \<Rightarrow> string option"

text \<open>A row of \<^verbatim>\<open>data["user"]\<close>: the customer and the attribute columns, read by name.\<close>

record user_row =
  user_customer_id :: "nat option"
  attrs :: "string \<Rightarrow> string option"

record dataset =
  user :: "user_row list"

subsection \<open>Rules and filters\<close>

text \<open>
  The objects passed as \<^verbatim>\<open>rules\<close> and \<^verbatim>\<open>filters\<close>. A constructor carries what the
  object's \<^verbatim>\<open>retrieve()\<close> returns (and \<^verbatim>\<open>cat_cols\<close> for a user-group rule);
  \<open>OtherRule\<close> and \<open>OtherFilter\<close> stand for any object that passes none of the
  \<^verbatim>\<open>isinstance\<close> tests.
\<close>

datatype rule =
    PersonalRetrieveRule "row list"
  | GlobalRetrieveRule "item_row list"
  | UserGroupRetrieveRule "string list" "group_row list"
  | OtherRule

datatype filter_rule =
    FilterRule "nat list"
  | OtherFilter

datatype error =
    TypeError string
  | AttributeError string
  | IndexError string
  | UnboundLocalError string

text \<open>One entry per \<^verbatim>\<open>retrieve()\<close> call, in call order.\<close>

datatype event =
    FilterRetrieve filter_rule
  | RuleRetrieve rule

text \<open>What \<^verbatim>\<open>collect\<close> returns: the compressed frame, the flat frame, or Python's \<^verbatim>\<open>None\<close>.\<close>

datatype collected =
    Compressed "(nat \<times> nat option list) list"
  | Flat "row list"
  | NoneValue

subsection \<open>Parameter checks (lines 105 to 121)\<close>

fun isinstance_Personal :: "rule \<Rightarrow> bool" where
  "isinstance_Personal (PersonalRetrieveRule _) = True"
| "isinstance_Personal _ = False"

fun isinstance_Global :: "rule \<Rightarrow> bool" where
  "isinstance_Global (GlobalRetrieveRule _) = True"
| "isinstance_Global _ = False"

fun isinstance_UserGroup :: "rule \<Rightarrow> bool" where
  "isinstance_UserGroup (UserGroupRetrieveRule _ _) = True"
| "isinstance_UserGroup _ = False"

fun isinstance_Filter :: "filter_rule \<Rightarrow> bool" where
  "isinstance_Filter (FilterRule _) = True"
| "isinstance_Filter _ = False"

definition rule_type_error :: error where
  "rule_type_error = TypeError ''Rule must be `PersonalRetrieveRule` or `GlobalRetrieveRule`''"

definition filter_type_error :: error where
  "filter_type_error = TypeError ''Filter must be `FilterRule`''"

fun check_rule :: "rule list \<Rightarrow> error + unit" where
  "check_rule [] = Inr ()"
| "check_rule (r # rules) =
     (if \<not> isinstance_Personal r \<and> \<not> isinstance_Global r \<and> \<not> isinstance_UserGroup r
      then Inl rule_type_error
      else check_rule rules)"

fun check_filter :: "filter_rule list \<Rightarrow> error + unit" where
  "check_filter [] = Inr ()"
| "check_filter (f # filters) =
     (if \<not> isinstance_Filter f then Inl filter_type_error else check_filter filters)"

subsection \<open>The exclusion list (lines 55 to 58)\<close>

text \<open>
  \<^verbatim>\<open>rm_items += filter.retrieve()\<close> for each filter in turn, with the calls logged.
  An object without the filter's \<^verbatim>\<open>retrieve\<close> cannot reach this loop
  (\<open>check_filter\<close> has raised); the model gives that branch an error.
\<close>

fun filter_loop ::
  "filter_rule list \<Rightarrow> nat list \<Rightarrow> event list \<Rightarrow> event list \<times> (error + nat list)" where
  "filter_loop [] rm_items log = (log, Inr rm_items)"
| "filter_loop (FilterRule xs # filters) rm_items log =
     filter_loop filters (rm_items @ xs) (log @ [FilterRetrieve (FilterRule xs)])"
| "filter_loop (OtherFilter # filters) rm_items log =
     (log, Inl (AttributeError ''retrieve''))"

subsection \<open>The tabular operations the loop uses\<close>

text \<open>\<^verbatim>\<open>items.loc[~items[item_id].isin(rm_items)]\<close>: a null item is in no list of ids.\<close>

definition isin :: "nat option \<Rightarrow> nat list \<Rightarrow> bool" where
  "isin c xs = (case c of None \<Rightarrow> False | Some i \<Rightarrow> i \<in> set xs)"

definition remove_items :: "nat list \<Rightarrow> ('a item_row_scheme) list \<Rightarrow> ('a item_row_scheme) list" where
  "remove_items rm_items items = filter (\<lambda>r. \<not> isin (item_id r) rm_items) items"

text \<open>\<^verbatim>\<open>np.repeat(xs, n)\<close> repeats each element n times; \<^verbatim>\<open>np.tile(xs, n)\<close> repeats the array.\<close>

definition np_repeat :: "'a list \<Rightarrow> nat \<Rightarrow> 'a list" where
  "np_repeat xs n = concat (map (replicate n) xs)"

definition np_tile :: "'a list \<Rightarrow> nat \<Rightarrow> 'a list" where
  "np_tile xs n = concat (replicate n xs)"

definition np_arange :: "nat \<Rightarrow> nat list" where
  "np_arange n = [0..<n]"

text \<open>\<^verbatim>\<open>items.iloc[idx]\<close> for positions that are in range (they come from \<open>np_arange\<close>).\<close>

definition iloc :: "'a list \<Rightarrow> nat list \<Rightarrow> 'a list" where
  "iloc items idx = map (\<lambda>i. items ! i) idx"

text \<open>\<^verbatim>\<open>tmp_df["customer_id"] = tmp_user\<close>: the new column is assigned by position.\<close>

definition with_customer :: "item_row \<Rightarrow> nat \<Rightarrow> row" where
  "with_customer r u =
     \<lparr>item_id = item_id r, score = score r, method_label = method_label r, customer_id = Some u\<rparr>"

definition assign_customer_id :: "item_row list \<Rightarrow> nat list \<Rightarrow> row list" where
  "assign_customer_id tmp_df tmp_user = map (\<lambda>(r, u). with_customer r u) (zip tmp_df tmp_user)"

text \<open>
  \<^verbatim>\<open>left.merge(right, how="left")\<close>: the left rows in order; each with its matching right
  rows in the right frame's order, or once with nulls when nothing matches.
\<close>

definition merge_left ::
  "'a list \<Rightarrow> 'b list \<Rightarrow> ('a \<Rightarrow> 'b \<Rightarrow> bool) \<Rightarrow> ('a \<Rightarrow> 'b option \<Rightarrow> 'c) \<Rightarrow> 'c list" where
  "merge_left left right on mk =
     concat (map (\<lambda>l. case filter (on l) right of
                         [] \<Rightarrow> [mk l None]
                       | ms \<Rightarrow> map (\<lambda>r. mk l (Some r)) ms) left)"

text \<open>\<^verbatim>\<open>pd.concat([pred_df, tmp_df], ignore_index=True)\<close>: a \<^verbatim>\<open>None\<close> entry is dropped.\<close>

definition pd_concat :: "row list option \<Rightarrow> row list \<Rightarrow> row list option" where
  "pd_concat pred_df tmp_df = (case pred_df of None \<Rightarrow> Some tmp_df | Some df \<Rightarrow> Some (df @ tmp_df))"

subsection \<open>Normalizing one rule's table (lines 63 to 84)\<close>

definition global_broadcast :: "item_row list \<Rightarrow> nat list \<Rightarrow> row list" where
  "global_broadcast items customer_list =
     (let num_item = length items;
          num_user = length customer_list;
          tmp_user = np_repeat customer_list num_item;
          tmp_df = iloc items (np_tile (np_arange num_item) num_user)
      in assign_customer_id tmp_df tmp_user)"

text \<open>
  The user-group branch. Line 80 projects the user table on the cohort columns and the
  customer; line 82 joins the target customers with it; line 83 joins the result with
  the rule's rows on the cohort columns; line 84 keeps the four output columns.
  With an empty list of cohort columns the merge of line 83 raises \<^verbatim>\<open>IndexError\<close>.
\<close>

definition null_row :: "nat \<Rightarrow> row" where
  "null_row u = \<lparr>item_id = None, score = None, method_label = None, customer_id = Some u\<rparr>"

definition group_to_row :: "nat \<Rightarrow> group_row \<Rightarrow> row" where
  "group_to_row u r =
     \<lparr>item_id = item_id r, score = score r, method_label = method_label r, customer_id = Some u\<rparr>"

definition user_cohorts :: "dataset \<Rightarrow> string list \<Rightarrow> nat list \<Rightarrow> (nat \<times> string option list) list" where
  "user_cohorts data cat_cols customer_list =
     (let user_tab = map (\<lambda>ur. (map (attrs ur) cat_cols, user_customer_id ur)) (user data)
      in merge_left customer_list user_tab
           (\<lambda>u (vals, cid). cid = Some u)
           (\<lambda>u m. case m of None \<Rightarrow> (u, map (\<lambda>_. None) cat_cols)
                           | Some (vals, cid) \<Rightarrow> (u, vals)))"

definition user_group_join ::
  "dataset \<Rightarrow> string list \<Rightarrow> group_row list \<Rightarrow> nat list \<Rightarrow> error + row list" where
  "user_group_join data cat_cols items customer_list =
     (let tmp_df = user_cohorts data cat_cols customer_list
      in if cat_cols = [] then Inl (IndexError ''list index out of range'')
         else Inr (merge_left tmp_df items
                     (\<lambda>(u, vals) r. map (cohort r) cat_cols = vals)
                     (\<lambda>(u, vals) m. case m of None \<Rightarrow> null_row u
                                           | Some r \<Rightarrow> group_to_row u r)))"

text \<open>
  One pass of the loop body up to \<^verbatim>\<open>tmp_df\<close>. The \<^verbatim>\<open>isinstance\<close> chain is tried in the
  source's order: global, personal, user group. For any other object no branch binds
  \<^verbatim>\<open>tmp_df\<close>; \<open>check_rule\<close> has raised before the loop can meet one.
\<close>

fun normalize :: "dataset \<Rightarrow> nat list \<Rightarrow> nat list \<Rightarrow> rule \<Rightarrow> error + row list" where
  "normalize data customer_list rm_items (GlobalRetrieveRule items) =
     Inr (global_broadcast (remove_items rm_items items) customer_list)"
| "normalize data customer_list rm_items (PersonalRetrieveRule items) =
     Inr (remove_items rm_items items)"
| "normalize data customer_list rm_items (UserGroupRetrieveRule cat_cols items) =
     user_group_join data cat_cols (remove_items rm_items items) customer_list"
| "normalize data customer_list rm_items OtherRule =
     Inl (UnboundLocalError ''tmp_df'')"

fun retrieve_loop ::
  "dataset \<Rightarrow> nat list \<Rightarrow> nat list \<Rightarrow> rule list \<Rightarrow> row list option \<Rightarrow> event list
     \<Rightarrow> event list \<times> (error + row list option)" where
  "retrieve_loop data customer_list rm_items [] pred_df log = (log, Inr pred_df)"
| "retrieve_loop data customer_list rm_items (r # rules) pred_df log =
     (case normalize data customer_list rm_items r of
        Inl e \<Rightarrow> (log @ [RuleRetrieve r], Inl e)
      | Inr tmp_df \<Rightarrow>
          retrieve_loop data customer_list rm_items rules (pd_concat pred_df tmp_df)
            (log @ [RuleRetrieve r]))"

subsection \<open>Compression (lines 92 to 101)\<close>

text \<open>
  \<^verbatim>\<open>groupby("customer_id")[item_id].apply(list).reset_index()\<close>: one row per distinct
  non-null customer, in sorted order, holding the item cells of that customer's rows in
  row order. The grouping key is the customer only: a null item cell stays in the list.
\<close>

definition groupby_apply_list :: "row list \<Rightarrow> (nat \<times> nat option list) list" where
  "groupby_apply_list pred_df =
     map (\<lambda>k. (k, map item_id (filter (\<lambda>r. customer_id r = Some k) pred_df)))
         (sort (remdups (List.map_filter customer_id pred_df)))"

text \<open>
  Lines 94 to 99: the target customers joined with the grouped frame, and an empty list
  wherever the join left the item cell null.
\<close>

definition impute :: "nat option list option \<Rightarrow> nat option list" where
  "impute c = (case c of None \<Rightarrow> [] | Some xs \<Rightarrow> xs)"

definition compress_df :: "nat list \<Rightarrow> row list \<Rightarrow> (nat \<times> nat option list) list" where
  "compress_df customer_list pred_df =
     (let grouped = groupby_apply_list pred_df;
          output_df = merge_left customer_list grouped
                        (\<lambda>u (k, xs). k = u)
                        (\<lambda>u m. case m of None \<Rightarrow> (u, None) | Some (k, xs) \<Rightarrow> (u, Some xs))
      in map (\<lambda>(u, c). (u, impute c)) output_df)"

subsection \<open>The collector (lines 47 to 103)\<close>

text \<open>
  The result is the log of \<^verbatim>\<open>retrieve()\<close> calls made, and the raised error or the
  returned value. With no rule the accumulator is still \<^verbatim>\<open>None\<close> after the loop:
  \<^verbatim>\<open>None.groupby\<close> raises when compressing, and \<^verbatim>\<open>None\<close> is returned otherwise.
\<close>

definition collect ::
  "dataset \<Rightarrow> nat list \<Rightarrow> rule list \<Rightarrow> filter_rule list option \<Rightarrow> bool
     \<Rightarrow> event list \<times> (error + collected)" where
  "collect data customer_list rules filters compress =
     (case check_rule rules of
        Inl e \<Rightarrow> ([], Inl e)
      | Inr _ \<Rightarrow>
         (case (case filters of
                  Some fs \<Rightarrow> (case check_filter fs of Inl e \<Rightarrow> Inl e | Inr _ \<Rightarrow> Inr fs)
                | None \<Rightarrow> Inr []) of
            Inl e \<Rightarrow> ([], Inl e)
          | Inr fs \<Rightarrow>
             (case filter_loop fs [] [] of
                (log, Inl e) \<Rightarrow> (log, Inl e)
              | (log, Inr rm_items) \<Rightarrow>
                 (case retrieve_loop data customer_list rm_items rules None log of
                    (log', Inl e) \<Rightarrow> (log', Inl e)
                  | (log', Inr pred_df) \<Rightarrow>
                     if compress then
                       (case pred_df of
                          None \<Rightarrow> (log', Inl (AttributeError ''groupby''))
                        | Some df \<Rightarrow> (log', Inr (Compressed (compress_df customer_list df))))
                     else
                       (case pred_df of
                          None \<Rightarrow> (log', Inr NoneValue)
                        | Some df \<Rightarrow> (log', Inr (Flat df)))))))"

subsection \<open>Notions the properties are stated with\<close>

text \<open>
  A rule the loop can process: one of the three recognized classes, and for a user-group
  rule at least one cohort column to join on.
\<close>

fun rule_ok :: "rule \<Rightarrow> bool" where
  "rule_ok (PersonalRetrieveRule _) = True"
| "rule_ok (GlobalRetrieveRule _) = True"
| "rule_ok (UserGroupRetrieveRule cat_cols _) = (cat_cols \<noteq> [])"
| "rule_ok OtherRule = False"

definition filters_ok :: "filter_rule list option \<Rightarrow> bool" where
  "filters_ok filters =
     (case filters of None \<Rightarrow> True | Some fs \<Rightarrow> list_all isinstance_Filter fs)"

text \<open>The exclusion list built from the filters: what their \<^verbatim>\<open>retrieve()\<close> return, appended.\<close>

fun filter_items :: "filter_rule \<Rightarrow> nat list" where
  "filter_items (FilterRule xs) = xs"
| "filter_items OtherFilter = []"

definition exclusion :: "filter_rule list option \<Rightarrow> nat list" where
  "exclusion filters = (case filters of None \<Rightarrow> [] | Some fs \<Rightarrow> concat (map filter_items fs))"

definition filter_events :: "filter_rule list option \<Rightarrow> event list" where
  "filter_events filters = (case filters of None \<Rightarrow> [] | Some fs \<Rightarrow> map FilterRetrieve fs)"

text \<open>The normalized table of one rule, and the tables of a rule list appended in list order.\<close>

definition norm_table :: "dataset \<Rightarrow> nat list \<Rightarrow> nat list \<Rightarrow> rule \<Rightarrow> row list" where
  "norm_table data customer_list rm_items r =
     (case normalize data customer_list rm_items r of Inl e \<Rightarrow> [] | Inr t \<Rightarrow> t)"

definition combined :: "dataset \<Rightarrow> nat list \<Rightarrow> nat list \<Rightarrow> rule list \<Rightarrow> row list" where
  "combined data customer_list rm_items rules =
     concat (map (norm_table data customer_list rm_items) rules)"

text \<open>The item cells of a customer's rows, in row order; and the candidates among them.\<close>

definition items_of :: "nat \<Rightarrow> row list \<Rightarrow> nat option list" where
  "items_of u df = map item_id (filter (\<lambda>r. customer_id r = Some u) df)"

definition candidates_of :: "nat \<Rightarrow> row list \<Rightarrow> nat list" where
  "candidates_of u df = List.map_filter id (items_of u df)"

subsection \<open>Example tables\<close>

text \<open>A global rule's table of three popular items.\<close>

definition ex_items :: "item_row list" where
  "ex_items = [\<lparr>item_id = Some 5, score = Some 3, method_label = Some ''pop''\<rparr>,
               \<lparr>item_id = Some 6, score = Some 2, method_label = Some ''pop''\<rparr>,
               \<lparr>item_id = Some 7, score = Some 1, method_label = Some ''pop''\<rparr>]"

text \<open>
  Personal rules for one customer: rule A with two rows, rule B with one, and a rule
  returning a single row, used twice to produce a duplicate pair.
\<close>

definition ex_rule_A :: rule where
  "ex_rule_A = PersonalRetrieveRule
     [\<lparr>item_id = Some 11, score = Some 9, method_label = Some ''A'', customer_id = Some 21\<rparr>,
      \<lparr>item_id = Some 12, score = Some 8, method_label = Some ''A'', customer_id = Some 21\<rparr>]"

definition ex_rule_B :: rule where
  "ex_rule_B = PersonalRetrieveRule
     [\<lparr>item_id = Some 13, score = Some 7, method_label = Some ''B'', customer_id = Some 21\<rparr>]"

definition ex_rule_dup :: rule where
  "ex_rule_dup = PersonalRetrieveRule
     [\<lparr>item_id = Some 11, score = Some 9, method_label = Some ''A'', customer_id = Some 21\<rparr>]"

text \<open>
  The user table of three customers with cohort column \<^verbatim>\<open>age_band\<close> (young, old,
  unknown), and a user-group rule on that column with one item for the young cohort and
  one for the old cohort.
\<close>

definition ex_data :: dataset where
  "ex_data = \<lparr>user =
     [\<lparr>user_customer_id = Some 21, attrs = (\<lambda>c. if c = ''age_band'' then Some ''young'' else None)\<rparr>,
      \<lparr>user_customer_id = Some 22, attrs = (\<lambda>c. if c = ''age_band'' then Some ''old'' else None)\<rparr>,
      \<lparr>user_customer_id = Some 23, attrs = (\<lambda>c. if c = ''age_band'' then Some ''unknown'' else None)\<rparr>]\<rparr>"

definition ex_group_items :: "group_row list" where
  "ex_group_items =
     [\<lparr>item_id = Some 101, score = Some 5, method_label = Some ''grp'',
       cohort = (\<lambda>c. if c = ''age_band'' then Some ''young'' else None)\<rparr>,
      \<lparr>item_id = Some 102, score = Some 4, method_label = Some ''grp'',
       cohort = (\<lambda>c. if c = ''age_band'' then Some ''old'' else None)\<rparr>]"

definition ex_group :: rule where
  "ex_group = UserGroupRetrieveRule [''age_band''] ex_group_items"

section \<open>Properties\<close>

subsection \<open>The checks and the two loops\<close>

lemma check_rule_bad: "OtherRule \<in> set rules \<Longrightarrow> check_rule rules = Inl rule_type_error"
  by (induction rules) auto

lemma check_rule_good: "OtherRule \<notin> set rules \<Longrightarrow> check_rule rules = Inr ()"
proof (induction rules)
  case Nil
  show ?case by simp
next
  case (Cons r rules)
  then show ?case by (cases r) simp_all
qed

lemma rule_ok_not_other: "list_all rule_ok rules \<Longrightarrow> OtherRule \<notin> set rules"
  by (induction rules) auto

lemma check_rule_ok: "list_all rule_ok rules \<Longrightarrow> check_rule rules = Inr ()"
  by (simp add: check_rule_good rule_ok_not_other)

lemma check_filter_ok: "list_all isinstance_Filter fs \<Longrightarrow> check_filter fs = Inr ()"
  by (induction fs) auto

lemma not_filter_other: "\<not> list_all isinstance_Filter fs \<Longrightarrow> OtherFilter \<in> set fs"
proof (induction fs)
  case Nil
  then show ?case by simp
next
  case (Cons f fs)
  then show ?case by (cases f) auto
qed

lemma check_filter_bad: "OtherFilter \<in> set fs \<Longrightarrow> check_filter fs = Inl filter_type_error"
  by (induction fs) auto

lemma filter_loop_ok:
  "list_all isinstance_Filter fs \<Longrightarrow>
   filter_loop fs rm log = (log @ map FilterRetrieve fs, Inr (rm @ concat (map filter_items fs)))"
proof (induction fs arbitrary: rm log)
  case Nil
  show ?case by simp
next
  case (Cons f fs)
  then show ?case by (cases f) simp_all
qed

lemma normalize_ok: "rule_ok r \<Longrightarrow> normalize data cl rm r = Inr (norm_table data cl rm r)"
  by (cases r) (simp_all add: norm_table_def user_group_join_def Let_def)

lemma retrieve_loop_ok:
  "list_all rule_ok rules \<Longrightarrow>
   retrieve_loop data cl rm rules pred log =
     (log @ map RuleRetrieve rules,
      Inr (if rules = [] then pred
           else Some ((case pred of None \<Rightarrow> [] | Some df \<Rightarrow> df) @ combined data cl rm rules)))"
proof (induction rules arbitrary: pred log)
  case Nil
  show ?case by simp
next
  case (Cons r rules)
  then have ok: "rule_ok r" and oks: "list_all rule_ok rules" by simp_all
  show ?case
    by (cases pred) (simp_all add: normalize_ok [OF ok] Cons.IH [OF oks] pd_concat_def combined_def)
qed

subsection \<open>Grouping and the join with the target customers\<close>

lemma filter_eq_key:
  "distinct ks \<Longrightarrow> filter (\<lambda>k. k = u) ks = (if u \<in> set ks then [u] else [])"
  by (induction ks) auto

lemma filter_grouped:
  "filter (\<lambda>(k, xs). k = u) (map (\<lambda>k. (k, f k)) ks) = map (\<lambda>k. (k, f k)) (filter (\<lambda>k. k = u) ks)"
  by (induction ks) auto

lemma group_keys:
  "set (List.map_filter customer_id df) = {k. \<exists>r \<in> set df. customer_id r = Some k}"
  by (induction df) (auto simp: List.map_filter_simps split: option.splits)

lemma items_of_absent:
  "\<forall>r \<in> set df. customer_id r \<noteq> Some u \<Longrightarrow> items_of u df = []"
  by (induction df) (auto simp: items_of_def)

lemma merge_left_lookup:
  assumes "\<And>l. filter (on l) right = (case g l of None \<Rightarrow> [] | Some r \<Rightarrow> [r])"
  shows "merge_left left right on mk = map (\<lambda>l. mk l (g l)) left"
  unfolding merge_left_def
  by (induction left) (simp_all add: assms split: option.splits)

lemma grouped_lookup:
  "filter (\<lambda>(k, xs). k = u) (groupby_apply_list pred_df) =
     (case (if \<exists>r \<in> set pred_df. customer_id r = Some u
            then Some (u, items_of u pred_df) else None) of
        None \<Rightarrow> [] | Some r \<Rightarrow> [r])"
proof -
  let ?ks = "sort (remdups (List.map_filter customer_id pred_df))"
  have d: "distinct ?ks" by simp
  have s: "u \<in> set ?ks \<longleftrightarrow> (\<exists>r \<in> set pred_df. customer_id r = Some u)"
    by (simp add: group_keys)
  show ?thesis
    unfolding groupby_apply_list_def filter_grouped filter_eq_key [OF d] s
    by (simp add: items_of_def)
qed

lemma compress_df_eq:
  "compress_df customer_list pred_df = map (\<lambda>u. (u, items_of u pred_df)) customer_list"
proof -
  have imp: "\<not> (\<exists>r \<in> set pred_df. customer_id r = Some u) \<Longrightarrow> items_of u pred_df = []" for u
    using items_of_absent [of pred_df u] by simp
  show ?thesis
    unfolding compress_df_def Let_def
    by (simp add: merge_left_lookup [where right = "groupby_apply_list pred_df", OF grouped_lookup]
        impute_def imp o_def)
qed

subsection \<open>What a successful call returns\<close>

lemma collect_ok:
  assumes "list_all rule_ok rules" and "filters_ok filters" and "rules \<noteq> []"
  shows "collect data cl rules filters compress =
           (filter_events filters @ map RuleRetrieve rules,
            Inr (if compress
                 then Compressed (map (\<lambda>u. (u, items_of u (combined data cl (exclusion filters) rules))) cl)
                 else Flat (combined data cl (exclusion filters) rules)))"
proof (cases filters)
  case None
  then show ?thesis
    using assms
    by (simp add: collect_def check_rule_ok retrieve_loop_ok filter_events_def exclusion_def
        compress_df_eq)
next
  case (Some fs)
  then have "list_all isinstance_Filter fs" using assms(2) by (simp add: filters_ok_def)
  then show ?thesis
    using assms Some
    by (simp add: collect_def check_rule_ok check_filter_ok filter_loop_ok retrieve_loop_ok
        filter_events_def exclusion_def compress_df_eq)
qed

lemma collect_no_rules:
  assumes "filters_ok filters"
  shows "collect data cl [] filters compress =
           (filter_events filters,
            if compress then Inl (AttributeError ''groupby'') else Inr NoneValue)"
proof (cases filters)
  case None
  then show ?thesis by (simp add: collect_def filter_events_def)
next
  case (Some fs)
  then have "list_all isinstance_Filter fs" using assms by (simp add: filters_ok_def)
  then show ?thesis
    using Some by (simp add: collect_def check_filter_ok filter_loop_ok filter_events_def)
qed

subsection \<open>Type validation\<close>

text \<open>
  Claim C8. If some rule is not of a recognized class, the call raises the rule type
  error, and if all rules are recognized but some filter is not a filter rule, it raises
  the filter type error; in both cases the log of \<^verbatim>\<open>retrieve()\<close> calls is empty, so no
  rule and no filter was evaluated and nothing is returned.
\<close>

theorem collect_type_validation:
  "(OtherRule \<in> set rules \<longrightarrow>
      collect data cl rules filters compress = ([], Inl rule_type_error)) \<and>
   (OtherRule \<notin> set rules \<and> filters = Some fs \<and> OtherFilter \<in> set fs \<longrightarrow>
      collect data cl rules filters compress = ([], Inl filter_type_error))"
  by (simp add: collect_def check_rule_bad check_rule_good check_filter_bad)

theorem collect_type_validation_witness:
  "collect \<lparr>user = []\<rparr> [1] [PersonalRetrieveRule [], OtherRule] None True
     = ([], Inl rule_type_error) \<and>
   collect \<lparr>user = []\<rparr> [1] [PersonalRetrieveRule []] (Some [FilterRule [7], OtherFilter]) True
     = ([], Inl filter_type_error)"
  using collect_type_validation
          [of "[PersonalRetrieveRule [], OtherRule]" "\<lparr>user = []\<rparr>" "[1]" None True "[]"]
        collect_type_validation
          [of "[PersonalRetrieveRule []]" "\<lparr>user = []\<rparr>" "[1]" "Some [FilterRule [7], OtherFilter]"
              True "[FilterRule [7], OtherFilter]"]
  by simp

subsection \<open>No rules\<close>

text \<open>
  Claim C9. With an empty rule list the call never returns a candidate table, whatever
  the filters: when the filters pass their check, it returns \<^verbatim>\<open>None\<close> if compression
  is off and raises at the grouping step if compression is on, so there is no row per
  target customer.
\<close>

theorem collect_empty_rules:
  "(\<forall>rows. snd (collect data cl [] filters compress) \<noteq> Inr (Compressed rows)) \<and>
   (\<forall>df. snd (collect data cl [] filters compress) \<noteq> Inr (Flat df)) \<and>
   (filters_ok filters \<longrightarrow>
      snd (collect data cl [] filters False) = Inr NoneValue \<and>
      snd (collect data cl [] filters True) = Inl (AttributeError ''groupby''))"
proof (cases "filters_ok filters")
  case True
  then show ?thesis by (simp add: collect_no_rules)
next
  case False
  then obtain fs where fs: "filters = Some fs" "\<not> list_all isinstance_Filter fs"
    by (cases filters) (auto simp: filters_ok_def)
  then have "OtherFilter \<in> set fs"
    by (simp add: not_filter_other)
  then have "collect data cl [] filters compress = ([], Inl filter_type_error)"
    using fs by (simp add: collect_def check_filter_bad)
  with False show ?thesis by simp
qed

theorem collect_empty_rules_witness:
  "filters_ok (Some [FilterRule [7]]) \<and>
   snd (collect \<lparr>user = []\<rparr> [1, 2] [] (Some [FilterRule [7]]) False) = Inr NoneValue \<and>
   snd (collect \<lparr>user = []\<rparr> [1, 2] [] (Some [FilterRule [7]]) True)
     = Inl (AttributeError ''groupby'')"
  using collect_empty_rules [of "\<lparr>user = []\<rparr>" "[1, 2]" "Some [FilterRule [7]]" True]
  by (simp add: filters_ok_def)

subsection \<open>Lists of equal-length blocks, counting, and rows of one customer\<close>

lemma iloc_tile: "iloc items (np_tile (np_arange (length items)) n) = concat (replicate n items)"
  by (induction n) (simp_all add: iloc_def np_tile_def np_arange_def map_nth)

lemma zip_replicate_right:
  "zip xs (replicate (length xs) u) = map (\<lambda>r. (r, u)) xs"
  by (induction xs) simp_all

lemma zip_tile_repeat:
  "zip (concat (replicate (length cl) items)) (np_repeat cl (length items))
     = concat (map (\<lambda>u. map (\<lambda>r. (r, u)) items) cl)"
  by (induction cl) (simp_all add: np_repeat_def zip_replicate_right)

lemma global_broadcast_eq:
  "global_broadcast items cl = concat (map (\<lambda>u. map (\<lambda>r. with_customer r u) items) cl)"
  by (simp add: global_broadcast_def Let_def assign_customer_id_def iloc_tile zip_tile_repeat
      map_concat o_def)

lemma length_concat_const:
  "(\<And>x. length (f x) = k) \<Longrightarrow> length (concat (map f xs)) = k * length xs"
  by (induction xs) simp_all

lemma nth_concat_const:
  assumes "\<And>x. length (f x) = k" and "i < length xs" and "j < k"
  shows "concat (map f xs) ! (i * k + j) = f (xs ! i) ! j"
  using assms(2)
proof (induction xs arbitrary: i)
  case Nil
  then show ?case by simp
next
  case (Cons x xs)
  show ?case
  proof (cases i)
    case 0
    then show ?thesis using assms(1,3) by (simp add: nth_append)
  next
    case (Suc i')
    then have "i' < length xs" using Cons.prems by simp
    from Cons.IH [OF this] show ?thesis
      using Suc assms(1) [of x] by (simp add: nth_append)
  qed
qed

lemma items_of_append: "items_of u (xs @ ys) = items_of u xs @ items_of u ys"
  by (simp add: items_of_def)

lemma items_of_concat: "items_of u (concat xss) = concat (map (items_of u) xss)"
  by (induction xss) (simp_all add: items_of_def)

lemma count_list_append: "count_list (xs @ ys) x = count_list xs x + count_list ys x"
  by (induction xs) simp_all

lemma count_list_concat: "count_list (concat xss) x = sum_list (map (\<lambda>xs. count_list xs x) xss)"
  by (induction xss) (simp_all add: count_list_append)

lemma filter_key_map:
  "filter (\<lambda>(c, xs). c = u) (map (\<lambda>v. (v, f v)) cl) = replicate (count_list cl u) (u, f u)"
  by (induction cl) auto

lemma filter_concat_map:
  "filter P (concat (map f xs)) = concat (map (\<lambda>x. filter P (f x)) xs)"
  by (induction xs) simp_all

lemma length_rows_of_customer:
  "length (filter (\<lambda>r. customer_id r = Some u) (concat (map (\<lambda>v. map (\<lambda>r. with_customer r v) items) cl)))
     = count_list cl u * length items"
  by (induction cl) (simp_all add: with_customer_def o_def)

lemma count_items_of:
  "count_list (items_of u df) c = length (filter (\<lambda>r. customer_id r = Some u \<and> item_id r = c) df)"
  by (induction df) (simp_all add: items_of_def)



subsection \<open>Global broadcast\<close>

text \<open>
  Claim C4. For a global rule whose table keeps k rows after the exclusion, and n target
  customers, the normalized table has k * n rows; the row at position i * k + j pairs
  the i-th customer with the j-th kept row and carries that row's item, score and method.
  So every customer is paired with every kept item.
\<close>

theorem global_broadcast_rows:
  assumes "kept = remove_items rm items"
    and "tbl = norm_table data cl rm (GlobalRetrieveRule items)"
  shows "normalize data cl rm (GlobalRetrieveRule items) = Inr tbl \<and>
         length tbl = length kept * length cl \<and>
         (\<forall>i < length cl. \<forall>j < length kept.
            tbl ! (i * length kept + j) =
              \<lparr>item_id = item_id (kept ! j), score = score (kept ! j),
               method_label = method_label (kept ! j), customer_id = Some (cl ! i)\<rparr>)"
proof -
  let ?f = "\<lambda>u. map (\<lambda>r. with_customer r u) kept"
  have tbl: "tbl = concat (map ?f cl)"
    by (simp add: assms norm_table_def global_broadcast_eq)
  have "length (concat (map ?f cl)) = length kept * length cl"
    by (rule length_concat_const) simp
  moreover have "\<forall>i < length cl. \<forall>j < length kept.
      concat (map ?f cl) ! (i * length kept + j) = with_customer (kept ! j) (cl ! i)"
    using nth_concat_const [of ?f "length kept" _ cl] by simp
  ultimately show ?thesis
    unfolding tbl by (simp add: assms(1) global_broadcast_eq with_customer_def)
qed

theorem global_broadcast_rows_witness:
  "normalize \<lparr>user = []\<rparr> [1, 2] [6] (GlobalRetrieveRule ex_items)
     = Inr (norm_table \<lparr>user = []\<rparr> [1, 2] [6] (GlobalRetrieveRule ex_items)) \<and>
   length (norm_table \<lparr>user = []\<rparr> [1, 2] [6] (GlobalRetrieveRule ex_items)) = 2 * 2 \<and>
   norm_table \<lparr>user = []\<rparr> [1, 2] [6] (GlobalRetrieveRule ex_items) ! (1 * 2 + 1)
     = \<lparr>item_id = Some 7, score = Some 1, method_label = Some ''pop'', customer_id = Some 2\<rparr>"
proof -
  have kept: "[ex_items ! 0, ex_items ! 2] = remove_items [6] ex_items"
    by (simp add: ex_items_def remove_items_def isin_def)
  note w = global_broadcast_rows [OF kept refl, of "\<lparr>user = []\<rparr>" "[1, 2]"]
  have row: "norm_table \<lparr>user = []\<rparr> [1, 2] [6] (GlobalRetrieveRule ex_items) ! (1 * 2 + 1)
     = \<lparr>item_id = Some 7, score = Some 1, method_label = Some ''pop'', customer_id = Some 2\<rparr>"
    using w [THEN conjunct2, THEN conjunct2, rule_format, of 1 1] by (simp add: ex_items_def numeral_3_eq_3)
  show ?thesis
    using w [THEN conjunct1] w [THEN conjunct2, THEN conjunct1] row by simp
qed

subsection \<open>Merge order\<close>

text \<open>
  Claim C6. The normalized tables are appended in the order of the rule list, and a
  customer's compressed item sequence is that customer's item cells in row order of the
  combined table: the cells from the first rule's table in its row order, then those
  from the second rule's table, and so on. Rule A with rows i1, i2 followed by rule B
  with row i3, for one customer, gives the sequence i1, i2, i3.
\<close>

theorem merge_order:
  assumes "list_all rule_ok rules" and "filters_ok filters" and "rules \<noteq> []"
  shows "snd (collect data cl rules filters False)
           = Inr (Flat (concat (map (norm_table data cl (exclusion filters)) rules))) \<and>
         snd (collect data cl rules filters True)
           = Inr (Compressed (map (\<lambda>u. (u, concat (map (\<lambda>r. items_of u (norm_table data cl (exclusion filters) r)) rules))) cl))"
  by (simp add: collect_ok [OF assms] combined_def items_of_concat o_def)

theorem merge_order_witness:
  "list_all rule_ok [ex_rule_A, ex_rule_B] \<and> filters_ok None \<and> [ex_rule_A, ex_rule_B] \<noteq> [] \<and>
   snd (collect \<lparr>user = []\<rparr> [21] [ex_rule_A, ex_rule_B] None True)
     = Inr (Compressed [(21, [Some 11, Some 12, Some 13])])"
proof -
  have ok: "list_all rule_ok [ex_rule_A, ex_rule_B]" "filters_ok None" "[ex_rule_A, ex_rule_B] \<noteq> []"
    by (simp_all add: ex_rule_A_def ex_rule_B_def filters_ok_def)
  have A: "items_of 21 (norm_table \<lparr>user = []\<rparr> [21] (exclusion None) ex_rule_A) = [Some 11, Some 12]"
    by (simp add: ex_rule_A_def norm_table_def exclusion_def remove_items_def isin_def items_of_def)
  have B: "items_of 21 (norm_table \<lparr>user = []\<rparr> [21] (exclusion None) ex_rule_B) = [Some 13]"
    by (simp add: ex_rule_B_def norm_table_def exclusion_def remove_items_def isin_def items_of_def)
  show ?thesis
    using ok merge_order [OF ok, of "\<lparr>user = []\<rparr>" "[21]", THEN conjunct2]
    by (simp add: A B)
qed

subsection \<open>No deduplication\<close>

text \<open>
  Claim C7. Nothing is deduplicated. The flat output holds every row of every normalized
  table with its multiplicity (a row occurs as often as in all the tables together, and
  a personal rule's table is its retrieved table minus the excluded items, duplicates
  included); in the compressed output an item cell occurs in a customer's sequence as
  often as the flat table has rows with that customer and that item. Two rules that
  each return item i1 for customer u1 give two rows and the sequence i1, i1.
\<close>

theorem no_deduplication:
  assumes "list_all rule_ok rules" and "filters_ok filters" and "rules \<noteq> []"
    and "df = combined data cl (exclusion filters) rules"
  shows "snd (collect data cl rules filters False) = Inr (Flat df) \<and>
         snd (collect data cl rules filters True) = Inr (Compressed (map (\<lambda>u. (u, items_of u df)) cl)) \<and>
         (\<forall>r. count_list df r
                = sum_list (map (\<lambda>rule. count_list (norm_table data cl (exclusion filters) rule) r) rules)) \<and>
         (\<forall>u c. count_list (items_of u df) c
                = length (filter (\<lambda>r. customer_id r = Some u \<and> item_id r = c) df)) \<and>
         (\<forall>items rm. norm_table data cl rm (PersonalRetrieveRule items) = remove_items rm items)"
  by (simp add: collect_ok [OF assms(1-3)] assms(4) combined_def count_list_concat o_def
      count_items_of norm_table_def)

theorem no_deduplication_witness:
  "list_all rule_ok [ex_rule_dup, ex_rule_dup] \<and> filters_ok None \<and> [ex_rule_dup, ex_rule_dup] \<noteq> [] \<and>
   snd (collect \<lparr>user = []\<rparr> [21] [ex_rule_dup, ex_rule_dup] None False)
     = Inr (Flat [\<lparr>item_id = Some 11, score = Some 9, method_label = Some ''A'', customer_id = Some 21\<rparr>,
                  \<lparr>item_id = Some 11, score = Some 9, method_label = Some ''A'', customer_id = Some 21\<rparr>]) \<and>
   snd (collect \<lparr>user = []\<rparr> [21] [ex_rule_dup, ex_rule_dup] None True)
     = Inr (Compressed [(21, [Some 11, Some 11])])"
proof -
  have ok: "list_all rule_ok [ex_rule_dup, ex_rule_dup]" "filters_ok None" "[ex_rule_dup, ex_rule_dup] \<noteq> []"
    by (simp_all add: ex_rule_dup_def filters_ok_def)
  have df: "[\<lparr>item_id = Some 11, score = Some 9, method_label = Some ''A'', customer_id = Some 21\<rparr>,
             \<lparr>item_id = Some 11, score = Some 9, method_label = Some ''A'', customer_id = Some 21\<rparr>]
            = combined \<lparr>user = []\<rparr> [21] (exclusion None) [ex_rule_dup, ex_rule_dup]"
    by (simp add: combined_def ex_rule_dup_def norm_table_def exclusion_def remove_items_def isin_def)
  show ?thesis
    using ok no_deduplication [OF ok df]
    by (simp add: items_of_def)
qed

subsection \<open>Repeated target customers\<close>

text \<open>
  Claim C10. The target list is not deduplicated. If a customer occurs m times in it, a
  global rule with k kept rows contributes m * k rows for that customer, and the
  compressed output has m rows for that customer, all equal: each carries the
  customer's whole grouped item sequence.
\<close>

theorem duplicate_customers:
  assumes "list_all rule_ok rules" and "filters_ok filters" and "rules \<noteq> []"
  shows "length (filter (\<lambda>r. customer_id r = Some u) (norm_table data cl rm (GlobalRetrieveRule items)))
           = count_list cl u * length (remove_items rm items) \<and>
         (\<exists>rows. snd (collect data cl rules filters True) = Inr (Compressed rows) \<and>
            filter (\<lambda>(c, xs). c = u) rows
              = replicate (count_list cl u) (u, items_of u (combined data cl (exclusion filters) rules)))"
  by (simp add: collect_ok [OF assms] filter_key_map norm_table_def global_broadcast_eq
      length_rows_of_customer)

theorem duplicate_customers_witness:
  "list_all rule_ok [GlobalRetrieveRule ex_items] \<and> filters_ok (Some [FilterRule [6]]) \<and>
   [GlobalRetrieveRule ex_items] \<noteq> [] \<and>
   length (filter (\<lambda>r. customer_id r = Some 21)
             (norm_table \<lparr>user = []\<rparr> [21, 22, 21] [6] (GlobalRetrieveRule ex_items))) = 2 * 2 \<and>
   (\<exists>rows. snd (collect \<lparr>user = []\<rparr> [21, 22, 21] [GlobalRetrieveRule ex_items] (Some [FilterRule [6]]) True)
              = Inr (Compressed rows) \<and>
       filter (\<lambda>(c, xs). c = 21) rows
         = replicate 2 (21, [Some 5, Some 7, Some 5, Some 7]))"
proof -
  have ok: "list_all rule_ok [GlobalRetrieveRule ex_items]" "filters_ok (Some [FilterRule [6]])"
    "[GlobalRetrieveRule ex_items] \<noteq> []"
    by (simp_all add: filters_ok_def)
  have kept: "remove_items [6] ex_items
               = [\<lparr>item_id = Some 5, score = Some 3, method_label = Some ''pop''\<rparr>,
                  \<lparr>item_id = Some 7, score = Some 1, method_label = Some ''pop''\<rparr>]"
    by (simp add: ex_items_def remove_items_def isin_def)
  have its: "items_of 21 (combined \<lparr>user = []\<rparr> [21, 22, 21] (exclusion (Some [FilterRule [6]]))
               [GlobalRetrieveRule ex_items]) = [Some 5, Some 7, Some 5, Some 7]"
    by (simp add: combined_def norm_table_def exclusion_def kept global_broadcast_eq items_of_def
        with_customer_def)
  show ?thesis
    using ok duplicate_customers [OF ok, of 21 "\<lparr>user = []\<rparr>" "[21, 22, 21]" "[6]" ex_items]
    by (simp add: kept its numeral_2_eq_2)
qed

subsection \<open>Rows of a left join and of the user-group table\<close>

lemma set_merge_one:
  "set (case filter P right of [] \<Rightarrow> [a] | ms \<Rightarrow> map f ms) =
     (if filter P right = [] then {a} else f ` {r \<in> set right. P r})"
proof (cases "filter P right = []")
  case True
  then show ?thesis by simp
next
  case False
  then have "(case filter P right of [] \<Rightarrow> [a] | ms \<Rightarrow> map f ms) = map f (filter P right)"
    by (cases "filter P right") simp_all
  moreover have "set (map f (filter P right)) = f ` {r \<in> set right. P r}"
    by auto
  ultimately show ?thesis using False by simp
qed

lemma set_merge_left:
  "set (merge_left left right on mk) =
     (\<Union>l \<in> set left. if filter (on l) right = [] then {mk l None}
                        else (\<lambda>r. mk l (Some r)) ` {r \<in> set right. on l r})"
proof -
  have "set (merge_left left right on mk) =
          (\<Union>l \<in> set left. set (case filter (on l) right of
                                   [] \<Rightarrow> [mk l None]
                                 | ms \<Rightarrow> map (\<lambda>r. mk l (Some r)) ms))"
    by (simp add: merge_left_def)
  then show ?thesis by (simp only: set_merge_one)
qed

lemma in_merge_left:
  "x \<in> set (merge_left left right on mk) \<longleftrightarrow>
     (\<exists>l \<in> set left. (filter (on l) right = [] \<and> x = mk l None) \<or>
                      (\<exists>r \<in> set right. on l r \<and> x = mk l (Some r)))"
  unfolding set_merge_left by (auto simp: filter_empty_conv)

lemma user_group_table:
  "cat_cols \<noteq> [] \<Longrightarrow>
   norm_table data cl rm (UserGroupRetrieveRule cat_cols items) =
     merge_left (user_cohorts data cat_cols cl) (remove_items rm items)
       (\<lambda>(u, vals) r. map (cohort r) cat_cols = vals)
       (\<lambda>(u, vals) m. case m of None \<Rightarrow> null_row u | Some r \<Rightarrow> group_to_row u r)"
  by (simp add: norm_table_def user_group_join_def Let_def)



lemma user_group_rows:
  assumes "cat_cols \<noteq> []"
  shows "r \<in> set (norm_table data cl rm (UserGroupRetrieveRule cat_cols items)) \<longleftrightarrow>
         (\<exists>(u, vals) \<in> set (user_cohorts data cat_cols cl).
            (\<forall>g \<in> set (remove_items rm items). map (cohort g) cat_cols \<noteq> vals) \<and> r = null_row u \<or>
            (\<exists>g \<in> set (remove_items rm items). map (cohort g) cat_cols = vals \<and> r = group_to_row u g))"
  unfolding user_group_table [OF assms] in_merge_left
  by (simp add: filter_empty_conv split_def)

lemma in_user_cohorts:
  "(u, vals) \<in> set (user_cohorts data cat_cols cl) \<longleftrightarrow>
     u \<in> set cl \<and>
     ((\<forall>ur \<in> set (user data). user_customer_id ur \<noteq> Some u) \<and> vals = map (\<lambda>_. None) cat_cols \<or>
      (\<exists>ur \<in> set (user data). user_customer_id ur = Some u \<and> vals = map (attrs ur) cat_cols))"
  unfolding user_cohorts_def Let_def in_merge_left
  by (auto simp: filter_empty_conv)

lemma user_cohorts_keeps:
  "u \<in> set cl \<Longrightarrow> \<exists>vals. (u, vals) \<in> set (user_cohorts data cat_cols cl)"
  unfolding in_user_cohorts by blast


subsection \<open>A call that returns has passed the checks and processed every rule\<close>

lemma normalize_Inr: "normalize data cl rm r = Inr t \<Longrightarrow> rule_ok r"
  by (cases r) (auto simp: user_group_join_def Let_def split: if_splits)

lemma retrieve_loop_Inr:
  "snd (retrieve_loop data cl rm rules pred log) = Inr p \<Longrightarrow> list_all rule_ok rules"
proof (induction rules arbitrary: pred log)
  case Nil
  show ?case by simp
next
  case (Cons r rules)
  show ?case
  proof (cases "normalize data cl rm r")
    case (Inl e)
    with Cons.prems show ?thesis by simp
  next
    case (Inr t)
    then have "rule_ok r" by (rule normalize_Inr)
    moreover have "list_all rule_ok rules"
      using Cons.prems Inr Cons.IH by simp
    ultimately show ?thesis by simp
  qed
qed


lemma retrieve_loop_Inl:
  assumes "\<not> list_all rule_ok rules"
  shows "\<exists>l e. retrieve_loop data cl rm rules pred log = (l, Inl e)"
proof (cases "retrieve_loop data cl rm rules pred log")
  case (Pair l res)
  show ?thesis
  proof (cases res)
    case (Inl e)
    with Pair show ?thesis by simp
  next
    case (Inr p)
    with Pair have "snd (retrieve_loop data cl rm rules pred log) = Inr p" by simp
    from retrieve_loop_Inr [OF this] assms show ?thesis by simp
  qed
qed

lemma collect_bad_filters:
  assumes "\<not> filters_ok filters"
  shows "\<exists>e. snd (collect data cl rules filters compress) = Inl e"
proof -
  from assms obtain fs where fs: "filters = Some fs" "OtherFilter \<in> set fs"
    by (cases filters) (auto simp: filters_ok_def dest: not_filter_other)
  show ?thesis
  proof (cases "check_rule rules")
    case (Inl e)
    then show ?thesis by (simp add: collect_def)
  next
    case (Inr x)
    then show ?thesis using fs by (simp add: collect_def check_filter_bad)
  qed
qed

lemma collect_bad_rules:
  assumes "\<not> list_all rule_ok rules"
  shows "\<exists>e. snd (collect data cl rules filters compress) = Inl e"
proof (cases "filters_ok filters")
  case False
  then show ?thesis by (rule collect_bad_filters)
next
  case True
  show ?thesis
  proof (cases "check_rule rules")
    case (Inl e)
    then show ?thesis by (simp add: collect_def)
  next
    case (Inr x)
    show ?thesis
    proof (cases filters)
      case None
      from retrieve_loop_Inl [OF assms, of data cl "[]" None "[]"]
      show ?thesis using Inr None by (auto simp: collect_def)
    next
      case (Some fs)
      then have ok: "list_all isinstance_Filter fs" using True by (simp add: filters_ok_def)
      from retrieve_loop_Inl [OF assms, of data cl "concat (map filter_items fs)" None "map FilterRetrieve fs"]
      show ?thesis using Inr Some ok
        by (auto simp: collect_def check_filter_ok filter_loop_ok)
    qed
  qed
qed

lemma collect_Inr:
  assumes "snd (collect data cl rules filters compress) = Inr out"
  shows "filters_ok filters \<and> list_all rule_ok rules"
  using assms collect_bad_filters [of filters data cl rules compress]
    collect_bad_rules [of rules data cl filters compress]
  by auto

subsection \<open>Exclusion\<close>

lemma not_excluded_rows:
  assumes "r \<in> set (norm_table data cl rm rule)"
  shows "\<not> isin (item_id r) rm"
proof (cases rule)
  case (PersonalRetrieveRule items)
  then show ?thesis
    using assms by (simp add: norm_table_def remove_items_def)
next
  case (GlobalRetrieveRule items)
  then show ?thesis
    using assms
    by (auto simp: norm_table_def global_broadcast_eq remove_items_def with_customer_def)
next
  case (UserGroupRetrieveRule cat_cols items)
  show ?thesis
  proof (cases "cat_cols = []")
    case True
    then show ?thesis
      using assms UserGroupRetrieveRule by (simp add: norm_table_def user_group_join_def Let_def)
  next
    case False
    have "r \<in> set (norm_table data cl rm (UserGroupRetrieveRule cat_cols items))"
      using assms UserGroupRetrieveRule by simp
    then consider u where "r = null_row u"
      | u g where "g \<in> set (remove_items rm items)" "r = group_to_row u g"
      unfolding user_group_rows [OF False] by blast
    then show ?thesis
    proof cases
      case 1
      then show ?thesis by (simp add: null_row_def isin_def)
    next
      case 2
      then show ?thesis by (simp add: group_to_row_def remove_items_def)
    qed
  qed
next
  case OtherRule
  then show ?thesis using assms by (simp add: norm_table_def)
qed

lemma not_excluded_combined:
  "r \<in> set (combined data cl rm rules) \<Longrightarrow> \<not> isin (item_id r) rm"
  by (auto simp: combined_def dest: not_excluded_rows)

text \<open>
  Claim C3. Whenever the call returns, no item of the exclusion list built from the
  filters occurs in the output: in no customer's sequence of the compressed output, and
  in no row of the flat output.
\<close>

theorem exclusion_respected:
  assumes "snd (collect data cl rules filters compress) = Inr out"
    and "i \<in> set (exclusion filters)"
  shows "case out of
           Compressed rows \<Rightarrow> (\<forall>(u, xs) \<in> set rows. Some i \<notin> set xs)
         | Flat df \<Rightarrow> (\<forall>r \<in> set df. item_id r \<noteq> Some i)
         | NoneValue \<Rightarrow> True"
proof -
  from collect_Inr [OF assms(1)] have ok: "list_all rule_ok rules" "filters_ok filters" by simp_all
  have clean: "item_id r \<noteq> Some i" if "r \<in> set (combined data cl (exclusion filters) rules)" for r
    using not_excluded_combined [OF that] assms(2) by (auto simp: isin_def)
  show ?thesis
  proof (cases "rules = []")
    case True
    then have "out = NoneValue"
      using assms(1) ok by (simp add: collect_no_rules split: if_splits)
    then show ?thesis by simp
  next
    case False
    show ?thesis
    proof (cases compress)
      case True
      then have "out = Compressed (map (\<lambda>u. (u, items_of u (combined data cl (exclusion filters) rules))) cl)"
        using assms(1) by (simp add: collect_ok [OF ok False])
      moreover have "Some i \<notin> set (items_of u (combined data cl (exclusion filters) rules))" for u
      proof
        assume "Some i \<in> set (items_of u (combined data cl (exclusion filters) rules))"
        then obtain r where "r \<in> set (combined data cl (exclusion filters) rules)" "item_id r = Some i"
          by (auto simp: items_of_def)
        with clean show False by blast
      qed
      ultimately show ?thesis by auto
    next
      case c: False
      then have "out = Flat (combined data cl (exclusion filters) rules)"
        using assms(1) by (simp add: collect_ok [OF ok False])
      then show ?thesis using clean by simp
    qed
  qed
qed

theorem exclusion_respected_witness:
  "snd (collect \<lparr>user = []\<rparr> [21, 22] [GlobalRetrieveRule ex_items, ex_rule_A]
          (Some [FilterRule [6], FilterRule [12]]) True)
     = Inr (Compressed [(21, [Some 5, Some 7, Some 11]), (22, [Some 5, Some 7])]) \<and>
   6 \<in> set (exclusion (Some [FilterRule [6], FilterRule [12]])) \<and>
   Some 6 \<notin> set [Some 5, Some 7, Some 11 :: nat option] \<and>
   Some 6 \<notin> set [Some 5, Some 7 :: nat option]"
proof -
  have ok: "list_all rule_ok [GlobalRetrieveRule ex_items, ex_rule_A]"
    "filters_ok (Some [FilterRule [6], FilterRule [12]])"
    "[GlobalRetrieveRule ex_items, ex_rule_A] \<noteq> []"
    by (simp_all add: filters_ok_def ex_rule_A_def)
  have ex: "exclusion (Some [FilterRule [6], FilterRule [12]]) = [6, 12]"
    by (simp add: exclusion_def)
  have comb: "combined \<lparr>user = []\<rparr> [21, 22] [6, 12] [GlobalRetrieveRule ex_items, ex_rule_A]
     = [\<lparr>item_id = Some 5, score = Some 3, method_label = Some ''pop'', customer_id = Some 21\<rparr>,
        \<lparr>item_id = Some 7, score = Some 1, method_label = Some ''pop'', customer_id = Some 21\<rparr>,
        \<lparr>item_id = Some 5, score = Some 3, method_label = Some ''pop'', customer_id = Some 22\<rparr>,
        \<lparr>item_id = Some 7, score = Some 1, method_label = Some ''pop'', customer_id = Some 22\<rparr>,
        \<lparr>item_id = Some 11, score = Some 9, method_label = Some ''A'', customer_id = Some 21\<rparr>]"
    by (simp add: combined_def norm_table_def global_broadcast_eq remove_items_def isin_def
        ex_items_def ex_rule_A_def with_customer_def)
  have out: "snd (collect \<lparr>user = []\<rparr> [21, 22] [GlobalRetrieveRule ex_items, ex_rule_A]
          (Some [FilterRule [6], FilterRule [12]]) True)
     = Inr (Compressed [(21, [Some 5, Some 7, Some 11]), (22, [Some 5, Some 7])])"
    by (simp add: collect_ok [OF ok] ex comb items_of_def)
  have six: "6 \<in> set (exclusion (Some [FilterRule [6], FilterRule [12]]))"
    by (simp add: ex)
  show ?thesis
    using out six exclusion_respected [OF out six] by simp
qed

subsection \<open>The example user-group rule, evaluated\<close>

lemma ex_cohorts:
  "user_cohorts ex_data [''age_band''] [21, 22, 23]
     = [(21, [Some ''young'']), (22, [Some ''old'']), (23, [Some ''unknown''])]"
  by (simp add: user_cohorts_def ex_data_def merge_left_def)

lemma ex_cohorts_23:
  "user_cohorts ex_data [''age_band''] [23] = [(23, [Some ''unknown''])]"
  by (simp add: user_cohorts_def ex_data_def merge_left_def)

lemma ex_group_table:
  "norm_table ex_data [21, 22, 23] [] ex_group
     = [\<lparr>item_id = Some 101, score = Some 5, method_label = Some ''grp'', customer_id = Some 21\<rparr>,
        \<lparr>item_id = Some 102, score = Some 4, method_label = Some ''grp'', customer_id = Some 22\<rparr>,
        \<lparr>item_id = None, score = None, method_label = None, customer_id = Some 23\<rparr>]"
  unfolding ex_group_def
  by (simp add: user_group_table ex_cohorts)
     (simp add: merge_left_def ex_group_items_def remove_items_def isin_def null_row_def group_to_row_def)

lemma ex_group_table_23:
  "norm_table ex_data [23] [] ex_group
     = [\<lparr>item_id = None, score = None, method_label = None, customer_id = Some 23\<rparr>]"
  unfolding ex_group_def
  by (simp add: user_group_table ex_cohorts_23)
     (simp add: merge_left_def ex_group_items_def remove_items_def isin_def null_row_def group_to_row_def)


lemma ok_ex_group: "list_all rule_ok [ex_group]" "filters_ok None" "[ex_group] \<noteq> []"
  by (simp_all add: ex_group_def filters_ok_def)

lemma map_filter_id_empty: "List.map_filter id xs = [] \<longleftrightarrow> (\<forall>c \<in> set xs. c = None)"
  by (induction xs) (auto simp: List.map_filter_simps split: option.splits)

lemma candidates_none: "candidates_of u df = [] \<longleftrightarrow> (\<forall>c \<in> set (items_of u df). c = None)"
  by (simp add: candidates_of_def map_filter_id_empty)

subsection \<open>Coverage and the empty default\<close>

text \<open>
  On every call that processes its rules, the compressed output has one row per entry of
  the target list, in the list's order, and a customer without a row in the combined
  table gets the empty list of lines 97 to 99. That is what a customer without
  candidates gets from a personal rule that has no row for the customer and from a
  global rule whose items are all excluded.
\<close>

lemma compressed_coverage:
  assumes "list_all rule_ok rules" and "filters_ok filters" and "rules \<noteq> []"
    and "df = combined data cl (exclusion filters) rules"
  shows "\<exists>rows. snd (collect data cl rules filters True) = Inr (Compressed rows) \<and>
           map fst rows = cl \<and>
           (\<forall>(u, xs) \<in> set rows. (\<forall>r \<in> set df. customer_id r \<noteq> Some u) \<longrightarrow> xs = [])"
proof -
  let ?rows = "map (\<lambda>u. (u, items_of u df)) cl"
  have "snd (collect data cl rules filters True) = Inr (Compressed ?rows)"
    by (simp add: collect_ok [OF assms(1-3)] assms(4))
  moreover have "map fst ?rows = cl"
    by (simp add: o_def)
  moreover have "\<forall>(u, xs) \<in> set ?rows. (\<forall>r \<in> set df. customer_id r \<noteq> Some u) \<longrightarrow> xs = []"
    using items_of_absent [of df] by auto
  ultimately show ?thesis by blast
qed

lemma personal_empty_default:
  "snd (collect ex_data [23] [ex_rule_A] None True) = Inr (Compressed [(23, [])])"
proof -
  have ok: "list_all rule_ok [ex_rule_A]" "filters_ok None" "[ex_rule_A] \<noteq> []"
    by (simp_all add: ex_rule_A_def filters_ok_def)
  have c: "items_of 23 (combined ex_data [23] (exclusion None) [ex_rule_A]) = []"
    by (simp add: combined_def norm_table_def exclusion_def ex_rule_A_def remove_items_def
        isin_def items_of_def)
  show ?thesis
    by (simp add: collect_ok [OF ok] c)
qed

lemma global_empty_default:
  "snd (collect ex_data [23] [GlobalRetrieveRule ex_items] (Some [FilterRule [5, 6, 7]]) True)
     = Inr (Compressed [(23, [])])"
proof -
  have ok: "list_all rule_ok [GlobalRetrieveRule ex_items]" "filters_ok (Some [FilterRule [5, 6, 7]])"
    "[GlobalRetrieveRule ex_items] \<noteq> []"
    by (simp_all add: filters_ok_def)
  have kept: "remove_items [5, 6, 7] ex_items = []"
    by (simp add: ex_items_def remove_items_def isin_def)
  have c: "items_of 23 (combined ex_data [23] (exclusion (Some [FilterRule [5, 6, 7]]))
             [GlobalRetrieveRule ex_items]) = []"
    by (simp add: combined_def norm_table_def exclusion_def kept global_broadcast_eq items_of_def)
  show ?thesis
    by (simp add: collect_ok [OF ok] c)
qed

text \<open>
  Claim C1. The code misses the claim where a user-group rule is present. Customer 23 is
  in the unknown cohort, for which the rule has no item: no rule produced a candidate
  for the customer, and the compressed sequence should be empty. The left join of line
  83 leaves a row with a null item for the customer, grouping keeps it, and the
  imputation of lines 97 to 99 only replaces a null cell: the sequence returned holds
  one null entry.
\<close>

theorem empty_default_failing_input:
  "candidates_of 23 (combined ex_data [23] (exclusion None) [ex_group]) = [] \<and>
   snd (collect ex_data [23] [ex_group] None True) = Inr (Compressed [(23, [None])]) \<and>
   snd (collect ex_data [23] [ex_group] None True) \<noteq> Inr (Compressed [(23, [])])"
proof -
  have c: "combined ex_data [23] (exclusion None) [ex_group]
             = [\<lparr>item_id = None, score = None, method_label = None, customer_id = Some 23\<rparr>]"
    by (simp add: combined_def exclusion_def ex_group_table_23)
  have "snd (collect ex_data [23] [ex_group] None True) = Inr (Compressed [(23, [None])])"
    by (simp add: collect_ok [OF ok_ex_group] c items_of_def)
  then show ?thesis
    by (simp add: c candidates_of_def items_of_def List.map_filter_simps)
qed

subsection \<open>User-group misses\<close>

text \<open>
  The normalized table of a user-group rule, for a target customer whose cohort values
  (every row the join with the user table gives the customer) match no kept row of the
  rule: it holds the customer's row with null item, score and method, and no other row
  for the customer.
\<close>

lemma user_group_miss_rows:
  assumes cc: "cat_cols \<noteq> []" and "u \<in> set cl"
    and "\<forall>vals. (u, vals) \<in> set (user_cohorts data cat_cols cl) \<longrightarrow>
           (\<forall>g \<in> set (remove_items rm items). map (cohort g) cat_cols \<noteq> vals)"
  shows "null_row u \<in> set (norm_table data cl rm (UserGroupRetrieveRule cat_cols items)) \<and>
         (\<forall>r \<in> set (norm_table data cl rm (UserGroupRetrieveRule cat_cols items)).
            customer_id r = Some u \<longrightarrow> r = null_row u)"
proof -
  let ?rule = "UserGroupRetrieveRule cat_cols items"
  from user_cohorts_keeps [OF assms(2)] obtain vals
    where v: "(u, vals) \<in> set (user_cohorts data cat_cols cl)" by blast
  with assms(3) have "\<forall>g \<in> set (remove_items rm items). map (cohort g) cat_cols \<noteq> vals" by blast
  with v have a: "null_row u \<in> set (norm_table data cl rm ?rule)"
    unfolding user_group_rows [OF cc] by blast
  have b: "\<forall>r \<in> set (norm_table data cl rm ?rule). customer_id r = Some u \<longrightarrow> r = null_row u"
  proof (intro ballI impI)
    fix r
    assume "r \<in> set (norm_table data cl rm ?rule)" and c: "customer_id r = Some u"
    then consider w ws where "(w, ws) \<in> set (user_cohorts data cat_cols cl)" "r = null_row w"
      | w ws g where "(w, ws) \<in> set (user_cohorts data cat_cols cl)"
          "g \<in> set (remove_items rm items)" "map (cohort g) cat_cols = ws" "r = group_to_row w g"
      unfolding user_group_rows [OF cc] by blast
    then show "r = null_row u"
    proof cases
      case 1
      with c show ?thesis by (simp add: null_row_def)
    next
      case 2
      with c have "w = u" by (simp add: group_to_row_def)
      with 2 assms(3) show ?thesis by blast
    qed
  qed
  from a b show ?thesis by blast
qed

text \<open>
  Claim C2. The code misses the second half of the claim. Customer 23's cohort matches
  no row of the user-group rule and the normalized table has the null row for the
  customer, as claimed; but no step removes that row before grouping, and the
  compressed sequence holds the null entry, in front of the item a personal rule
  contributes.
\<close>

theorem user_group_miss_failing_input:
  "user_cohorts ex_data [''age_band''] [23] = [(23, [Some ''unknown''])] \<and>
   norm_table ex_data [23] [] ex_group = [null_row 23] \<and>
   snd (collect ex_data [23] [ex_group, PersonalRetrieveRule
          [\<lparr>item_id = Some 13, score = Some 7, method_label = Some ''B'', customer_id = Some 23\<rparr>]]
          None True)
     = Inr (Compressed [(23, [None, Some 13])])"
proof -
  let ?B = "PersonalRetrieveRule
          [\<lparr>item_id = Some 13, score = Some 7, method_label = Some ''B'', customer_id = Some 23\<rparr>]"
  have ok: "list_all rule_ok [ex_group, ?B]" "filters_ok None" "[ex_group, ?B] \<noteq> []"
    by (simp_all add: ex_group_def filters_ok_def)
  have c: "combined ex_data [23] (exclusion None) [ex_group, ?B]
     = [\<lparr>item_id = None, score = None, method_label = None, customer_id = Some 23\<rparr>,
        \<lparr>item_id = Some 13, score = Some 7, method_label = Some ''B'', customer_id = Some 23\<rparr>]"
    by (simp add: combined_def exclusion_def ex_group_table_23)
       (simp add: norm_table_def remove_items_def isin_def)
  have "snd (collect ex_data [23] [ex_group, ?B] None True) = Inr (Compressed [(23, [None, Some 13])])"
    by (simp add: collect_ok [OF ok] c items_of_def)
  then show ?thesis by (simp add: ex_cohorts_23 ex_group_table_23 null_row_def)
qed

subsection \<open>The user-group join on the example\<close>

text \<open>
  The two joins on the example: one cohort column, items (young, item a) and (old, item
  b), and three distinct customers whose user rows say young, old and unknown. The join
  with the user table gives each customer its cohort value, and the normalized table
  maps the first customer to item a, the second to item b and the third to a null-item
  row. A target customer without a row in the user table gets null for every cohort
  column.
\<close>

lemma user_group_example_join:
  assumes "distinct [ua, ub, uc]"
    and "young \<noteq> old" and "unknown \<noteq> young" and "unknown \<noteq> old"
    and "data = \<lparr>user = [\<lparr>user_customer_id = Some ua, attrs = attr_a\<rparr>,
                          \<lparr>user_customer_id = Some ub, attrs = attr_b\<rparr>,
                          \<lparr>user_customer_id = Some uc, attrs = attr_c\<rparr>]\<rparr>"
    and "attr_a col = Some young" and "attr_b col = Some old" and "attr_c col = Some unknown"
    and "cohort ga col = Some young" and "cohort gb col = Some old"
    and "rule = UserGroupRetrieveRule [col] [ga, gb]"
  shows "user_cohorts data [col] [ua, ub, uc]
           = [(ua, [Some young]), (ub, [Some old]), (uc, [Some unknown])] \<and>
         normalize data [ua, ub, uc] [] rule
           = Inr [group_to_row ua ga, group_to_row ub gb, null_row uc] \<and>
         (\<forall>cat_cols cl u. u \<in> set cl \<and> u \<notin> {ua, ub, uc} \<longrightarrow>
            (u, map (\<lambda>_. None) cat_cols) \<in> set (user_cohorts data cat_cols cl))"
proof -
  have co: "user_cohorts data [col] [ua, ub, uc]
           = [(ua, [Some young]), (ub, [Some old]), (uc, [Some unknown])]"
    using assms(1,5-8) by (simp add: user_cohorts_def merge_left_def)
  have kept: "remove_items [] [ga, gb] = [ga, gb]"
    by (simp add: remove_items_def isin_def split: option.splits)
  have tab: "norm_table data [ua, ub, uc] [] rule
           = [group_to_row ua ga, group_to_row ub gb, null_row uc]"
    unfolding assms(11)
    using assms(2-4,9,10) by (simp add: user_group_table co kept) (simp add: merge_left_def)
  have ok: "list_all rule_ok [rule]" "filters_ok None" "[rule] \<noteq> []"
    by (simp_all add: assms(11) filters_ok_def)
  have nul: "\<forall>cat_cols cl u. u \<in> set cl \<and> u \<notin> {ua, ub, uc} \<longrightarrow>
            (u, map (\<lambda>_. None) cat_cols) \<in> set (user_cohorts data cat_cols cl)"
    unfolding in_user_cohorts by (simp add: assms(5))
  have "normalize data [ua, ub, uc] [] rule = Inr (norm_table data [ua, ub, uc] [] rule)"
    using ok(1) by (simp add: normalize_ok)
  with co tab nul show ?thesis by simp
qed

text \<open>
  Claim C5. On the example of the claim the normalized table is as claimed, with the
  null row for the third customer. The code misses the last part: the null row is not
  dropped at compression, and the third customer's sequence is one null entry where the
  claim has the empty sequence.
\<close>

theorem user_group_example_failing_input:
  "norm_table ex_data [21, 22, 23] [] ex_group ! 2 = null_row 23 \<and>
   snd (collect ex_data [21, 22, 23] [ex_group] None True)
     = Inr (Compressed [(21, [Some 101]), (22, [Some 102]), (23, [None])]) \<and>
   snd (collect ex_data [21, 22, 23] [ex_group] None True)
     \<noteq> Inr (Compressed [(21, [Some 101]), (22, [Some 102]), (23, [])])"
proof -
  have c: "combined ex_data [21, 22, 23] (exclusion None) [ex_group]
             = norm_table ex_data [21, 22, 23] [] ex_group"
    by (simp add: combined_def exclusion_def)
  have "snd (collect ex_data [21, 22, 23] [ex_group] None True)
     = Inr (Compressed [(21, [Some 101]), (22, [Some 102]), (23, [None])])"
    by (simp add: collect_ok [OF ok_ex_group] c ex_group_table items_of_def)
  then show ?thesis
    by (simp add: ex_group_table null_row_def)
qed

end
